theory Spec2Isabelle
  imports Complex_Main
begin

section \<open>Numbers of the host language\<close>

text \<open>
  The library computes on the numbers of its host language: IEEE doubles, two infinities
  and NaN.  The finite ones are idealised here as reals with exact arithmetic; the
  infinities and NaN are kept, because the source divides by values that can be zero and
  reads array slots and optional arguments that can be missing.  Signed zeros are not
  distinguished: every zero divisor of the source is the result of an addition or a
  subtraction, hence a positive zero.

  A double operation returns the exact result rounded, with a relative error of at most
  \<open>2^-53\<close>, as long as it does not overflow.  The statements below whose truth depends
  on the size of these errors are made within bounds on their arguments, inside which the
  errors are too small to change them.
\<close>

datatype number = Fin real | PInf | NInf | NaN

instantiation number :: "{zero, one, plus, minus, uminus, times, inverse, ord}"
begin

definition zero_number :: number where
  "zero_number = Fin 0"

definition one_number :: number where
  "one_number = Fin 1"

fun plus_number :: "number \<Rightarrow> number \<Rightarrow> number" where
  "plus_number (Fin a) (Fin b) = Fin (a + b)"
| "plus_number NaN _ = NaN"
| "plus_number _ NaN = NaN"
| "plus_number PInf NInf = NaN"
| "plus_number NInf PInf = NaN"
| "plus_number PInf _ = PInf"
| "plus_number _ PInf = PInf"
| "plus_number NInf _ = NInf"
| "plus_number _ NInf = NInf"

fun uminus_number :: "number \<Rightarrow> number" where
  "uminus_number (Fin a) = Fin (- a)"
| "uminus_number PInf = NInf"
| "uminus_number NInf = PInf"
| "uminus_number NaN = NaN"

definition minus_number :: "number \<Rightarrow> number \<Rightarrow> number" where
  "minus_number a b = a + (- b)"

text \<open>The sign of a number: 1, -1 or 0, for the products and quotients with infinities.\<close>

fun sgn_of :: "number \<Rightarrow> int" where
  "sgn_of (Fin a) = (if 0 < a then 1 else if a < 0 then - 1 else 0)"
| "sgn_of PInf = 1"
| "sgn_of NInf = - 1"
| "sgn_of NaN = 0"

definition inf_of :: "int \<Rightarrow> number" where
  "inf_of s = (if 0 < s then PInf else if s < 0 then NInf else NaN)"

fun times_number :: "number \<Rightarrow> number \<Rightarrow> number" where
  "times_number (Fin a) (Fin b) = Fin (a * b)"
| "times_number NaN _ = NaN"
| "times_number _ NaN = NaN"
| "times_number a b = inf_of (sgn_of a * sgn_of b)"

fun divide_number :: "number \<Rightarrow> number \<Rightarrow> number" where
  "divide_number (Fin a) (Fin b) = (if b = 0 then inf_of (sgn_of (Fin a)) else Fin (a / b))"
| "divide_number NaN _ = NaN"
| "divide_number _ NaN = NaN"
| "divide_number (Fin a) _ = Fin 0"
| "divide_number a (Fin b) = inf_of (sgn_of a * (if b < 0 then - 1 else 1))"
| "divide_number _ _ = NaN"

definition inverse_number :: "number \<Rightarrow> number" where
  "inverse_number a = Fin 1 div a"

fun less_number :: "number \<Rightarrow> number \<Rightarrow> bool" where
  "less_number (Fin a) (Fin b) = (a < b)"
| "less_number NaN _ = False"
| "less_number _ NaN = False"
| "less_number _ NInf = False"
| "less_number PInf _ = False"
| "less_number NInf _ = True"
| "less_number _ PInf = True"

fun less_eq_number :: "number \<Rightarrow> number \<Rightarrow> bool" where
  "less_eq_number (Fin a) (Fin b) = (a \<le> b)"
| "less_eq_number NaN _ = False"
| "less_eq_number _ NaN = False"
| "less_eq_number NInf _ = True"
| "less_eq_number _ PInf = True"
| "less_eq_number _ _ = False"

instance ..

end

instance number :: numeral
proof
  fix a b c :: number
  show "a + b + c = a + (b + c)"
    by (cases a; cases b; cases c) simp_all
qed

text \<open>Strict equality of two numbers: NaN is equal to nothing, itself included.\<close>

definition strict_eq :: "number \<Rightarrow> number \<Rightarrow> bool" where
  "strict_eq a b = (a \<noteq> NaN \<and> b \<noteq> NaN \<and> a = b)"

text \<open>Truthiness of a number, as the operator \<open>||\<close> reads it: zero and NaN are falsy.\<close>

definition truthy :: "number \<Rightarrow> bool" where
  "truthy a = (a \<noteq> NaN \<and> a \<noteq> Fin 0)"

text \<open>\<open>Math.round\<close> rounds to the nearest integer, a half towards plus infinity.\<close>

fun Math_round :: "number \<Rightarrow> number" where
  "Math_round (Fin a) = Fin (of_int \<lfloor>a + 1 / 2\<rfloor>)"
| "Math_round x = x"

fun Math_floor :: "number \<Rightarrow> number" where
  "Math_floor (Fin a) = Fin (of_int \<lfloor>a\<rfloor>)"
| "Math_floor x = x"

fun Math_max2 :: "number \<Rightarrow> number \<Rightarrow> number" where
  "Math_max2 NaN _ = NaN"
| "Math_max2 _ NaN = NaN"
| "Math_max2 a b = (if a < b then b else a)"

fun Math_min2 :: "number \<Rightarrow> number \<Rightarrow> number" where
  "Math_min2 NaN _ = NaN"
| "Math_min2 _ NaN = NaN"
| "Math_min2 a b = (if b < a then b else a)"

definition Math_max :: "number \<Rightarrow> number \<Rightarrow> number \<Rightarrow> number" where
  "Math_max a b c = Math_max2 (Math_max2 a b) c"

definition Math_min :: "number \<Rightarrow> number \<Rightarrow> number \<Rightarrow> number" where
  "Math_min a b c = Math_min2 (Math_min2 a b) c"

text \<open>
  The remainder operator \<open>%\<close>: the result has the sign of the dividend; it is NaN for an
  infinite dividend and for a zero divisor.
\<close>

fun js_rem :: "number \<Rightarrow> number \<Rightarrow> number" where
  "js_rem (Fin a) (Fin b) =
     (if b = 0 then NaN
      else if 0 \<le> a then Fin (a - \<bar>b\<bar> * of_int \<lfloor>a / \<bar>b\<bar>\<rfloor>)
      else Fin (- (- a - \<bar>b\<bar> * of_int \<lfloor>- a / \<bar>b\<bar>\<rfloor>)))"
| "js_rem NaN _ = NaN"
| "js_rem _ NaN = NaN"
| "js_rem (Fin a) _ = Fin a"
| "js_rem _ _ = NaN"

text \<open>
  \<open>i & 0x01\<close> on a number that is an integer or not finite: the lowest bit of the
  integer, and 0 for an infinity or NaN.
\<close>

fun bit_and_1 :: "number \<Rightarrow> number" where
  "bit_and_1 (Fin a) = Fin (of_int (\<lfloor>a\<rfloor> mod 2))"
| "bit_and_1 _ = Fin 0"


section \<open>The color value\<close>

datatype ColorTypes = RGB | RGBA | HSL | HSLA | HSV | HSVA | HWB | HWBA | CMYK

record Color =
  channels :: "number list"
  type :: ColorTypes
  transparency :: number

text \<open>
  Reading an array slot in a numeric context: a slot that does not exist is
  \<open>undefined\<close>, which every arithmetic operation and \<open>Math.round\<close> turn into NaN.
\<close>

definition item :: "number list \<Rightarrow> nat \<Rightarrow> number" where
  "item xs i = (if i < length xs then xs ! i else NaN)"

text \<open>
  The private constructor.  The alpha argument is optional; \<open>alpha || 1\<close> replaces a
  missing alpha by 1, and a falsy one (zero, NaN) as well.
\<close>

definition new_Color :: "number list \<Rightarrow> ColorTypes \<Rightarrow> number option \<Rightarrow> Color" where
  "new_Color chs t alpha =
     \<lparr>channels = chs, type = t,
      transparency = (case alpha of None \<Rightarrow> 1 | Some a \<Rightarrow> if truthy a then a else 1)\<rparr>"

subsection \<open>Static constructors\<close>

definition Color_rgb :: "number \<Rightarrow> number \<Rightarrow> number \<Rightarrow> Color" where
  "Color_rgb r g b = new_Color [Math_round r, Math_round g, Math_round b] RGB None"

definition Color_rgba :: "number \<Rightarrow> number \<Rightarrow> number \<Rightarrow> number \<Rightarrow> Color" where
  "Color_rgba r g b a = new_Color [Math_round r, Math_round g, Math_round b] RGBA (Some a)"

definition Color_hsl :: "number \<Rightarrow> number \<Rightarrow> number \<Rightarrow> Color" where
  "Color_hsl h s l = new_Color [Math_round h, Math_round s, Math_round l] HSL None"

definition Color_hsla :: "number \<Rightarrow> number \<Rightarrow> number \<Rightarrow> number \<Rightarrow> Color" where
  "Color_hsla h s l a = new_Color [Math_round h, Math_round s, Math_round l] HSLA (Some a)"

definition Color_hsv :: "number \<Rightarrow> number \<Rightarrow> number \<Rightarrow> Color" where
  "Color_hsv h s v = new_Color [Math_round h, Math_round s, Math_round v] HSV None"

definition Color_hsva :: "number \<Rightarrow> number \<Rightarrow> number \<Rightarrow> number \<Rightarrow> Color" where
  "Color_hsva h s v a = new_Color [Math_round h, Math_round s, Math_round v] HSVA (Some a)"

text \<open>
  \<open>hwb\<close> and \<open>hwba\<close> replace a whiteness and a blackness whose sum exceeds 100 by their
  shares of 100, and round each share by itself.  On doubles a share that is exactly half
  way between two integers can come out just below it, as \<open>29 / 200 * 100\<close> does, and is
  then rounded down; and the sum \<open>w + b\<close> can overflow or cancel.
\<close>

definition Color_hwb :: "number \<Rightarrow> number \<Rightarrow> number \<Rightarrow> Color" where
  "Color_hwb h w b =
     (if 100 < w + b
      then new_Color [Math_round h, Math_round (w / (w + b) * 100),
                      Math_round (b / (w + b) * 100)] HWB None
      else new_Color [Math_round h, Math_round w, Math_round b] HWB None)"

definition Color_hwba :: "number \<Rightarrow> number \<Rightarrow> number \<Rightarrow> number \<Rightarrow> Color" where
  "Color_hwba h w b a =
     (if 100 < w + b
      then new_Color [Math_round h, Math_round (w / (w + b) * 100),
                      Math_round (b / (w + b) * 100)] HWBA (Some a)
      else new_Color [Math_round h, Math_round w, Math_round b] HWBA (Some a))"

definition Color_cmyk :: "number \<Rightarrow> number \<Rightarrow> number \<Rightarrow> number \<Rightarrow> Color" where
  "Color_cmyk c m y k =
     new_Color [Math_round c, Math_round m, Math_round y, Math_round k] CMYK None"

subsection \<open>Conversions\<close>

definition hue2rgb :: "number \<Rightarrow> number \<Rightarrow> number \<Rightarrow> number" where
  "hue2rgb p q t0 =
     (let t1 = (if t0 < 0 then t0 + 1 else t0);
          t = (if 1 < t1 then t1 - 1 else t1)
      in if t < 1 / 6 then p + (q - p) * 6 * t
         else if t < 1 / 2 then q
         else if t < 2 / 3 then p + (q - p) * (2 / 3 - t) * 6
         else p)"

definition hsl_to_rgb :: "Color \<Rightarrow> Color" where
  "hsl_to_rgb c =
     (let h = item (channels c) 0 / 360;
          s = item (channels c) 1 / 100;
          l = item (channels c) 2 / 100
      in if strict_eq s 0 then Color_rgb (l * 255) (l * 255) (l * 255)
         else
           let q = (if l < 1 / 2 then l * (1 + s) else l + s - l * s);
               p = 2 * l - q;
               r = hue2rgb p q (h + 1 / 3);
               g = hue2rgb p q h;
               b = hue2rgb p q (h - 1 / 3)
           in Color_rgb (r * 255) (g * 255) (b * 255))"

definition hsv_to_rgb :: "Color \<Rightarrow> Color" where
  "hsv_to_rgb c =
     (let h = item (channels c) 0 / 360;
          s = item (channels c) 1 / 100;
          v = item (channels c) 2 / 100;
          i = Math_floor (h * 6);
          f = h * 6 - i;
          p = v * (1 - s);
          q = v * (1 - f * s);
          t = v * (1 - (1 - f) * s);
          k = js_rem i 6
      in if strict_eq k 0 then Color_rgb v t p
         else if strict_eq k 1 then Color_rgb q v p
         else if strict_eq k 2 then Color_rgb p v t
         else if strict_eq k 3 then Color_rgb p q v
         else if strict_eq k 4 then Color_rgb t p v
         else if strict_eq k 5 then Color_rgb v p q
         else Color_rgb 0 0 0)"

definition hwb_to_rgb :: "Color \<Rightarrow> Color" where
  "hwb_to_rgb c =
     (let h = item (channels c) 0 / 360;
          wh0 = item (channels c) 1 / 100;
          bl0 = item (channels c) 2 / 100;
          ratio = wh0 + bl0;
          wh = (if 1 < ratio then wh0 / ratio else wh0);
          bl = (if 1 < ratio then bl0 / ratio else bl0);
          i = Math_floor (6 * h);
          v = 1 - bl;
          f0 = 6 * h - i;
          f = (if \<not> strict_eq (bit_and_1 i) 0 then 1 - f0 else f0);
          n = wh + f * (v - wh)
      in if strict_eq i 1 then Color_rgb n v wh
         else if strict_eq i 2 then Color_rgb wh v n
         else if strict_eq i 3 then Color_rgb wh n v
         else if strict_eq i 4 then Color_rgb n wh v
         else if strict_eq i 5 then Color_rgb v wh n
         else Color_rgb v n wh)"

definition cmyk_to_rgb :: "Color \<Rightarrow> Color" where
  "cmyk_to_rgb col =
     (let c = item (channels col) 0 / 360;
          m = item (channels col) 1 / 100;
          y = item (channels col) 2 / 100;
          k = item (channels col) 2 / 100;
          r = 255 * (1 - c) * (1 - k);
          g = 255 * (1 - m) * (1 - k);
          b = 255 * (1 - y) * (1 - k)
      in Color_rgb r g b)"

text \<open>The method \<open>rgb()\<close>: one case of the switch per color type.\<close>

definition rgb :: "Color \<Rightarrow> Color" where
  "rgb c =
     (case type c of
        RGBA \<Rightarrow> Color_rgb (item (channels c) 0) (item (channels c) 1) (item (channels c) 2)
      | RGB \<Rightarrow> Color_rgb (item (channels c) 0) (item (channels c) 1) (item (channels c) 2)
      | HSLA \<Rightarrow> hsl_to_rgb c
      | HSL \<Rightarrow> hsl_to_rgb c
      | HSVA \<Rightarrow> hsv_to_rgb c
      | HSV \<Rightarrow> hsv_to_rgb c
      | HWBA \<Rightarrow> hwb_to_rgb c
      | HWB \<Rightarrow> hwb_to_rgb c
      | CMYK \<Rightarrow> cmyk_to_rgb c)"

definition rgba :: "Color \<Rightarrow> Color" where
  "rgba c =
     (if type c = RGBA
      then Color_rgba (item (channels c) 0) (item (channels c) 1) (item (channels c) 2)
             (transparency c)
      else let ch = channels (rgb c)
           in Color_rgba (item ch 0) (item ch 1) (item ch 2) (transparency c))"

definition hsl :: "Color \<Rightarrow> Color" where
  "hsl c =
     (if type c = HSL
      then Color_hsl (item (channels c) 0) (item (channels c) 1) (item (channels c) 2)
      else
        let ch = channels (rgba c);
            r = item ch 0 / 255;
            g = item ch 1 / 255;
            b = item ch 2 / 255;
            mx = Math_max r g b;
            mn = Math_min r g b;
            l = (mx + mn) / 2
        in if strict_eq mx mn then Color_hsl 0 (0 * 100) (l * 100)
           else
             let d = mx - mn;
                 s = (if 1 / 2 < l then d / (2 - mx - mn) else d / (mx + mn));
                 h = (if strict_eq mx r then (g - b) / d + (if g < b then 6 else 0)
                      else if strict_eq mx g then (b - r) / d + 2
                      else if strict_eq mx b then (r - g) / d + 4
                      else (mx + mn) / 2)
             in Color_hsl (h * 60) (s * 100) (l * 100))"

definition hsla :: "Color \<Rightarrow> Color" where
  "hsla c =
     (if type c = HSLA
      then Color_hsla (item (channels c) 0) (item (channels c) 1) (item (channels c) 2)
             (transparency c)
      else let ch = channels (hsl c)
           in Color_hsla (item ch 0) (item ch 1) (item ch 2) (transparency c))"

definition hsv :: "Color \<Rightarrow> Color" where
  "hsv c =
     (if type c = HSV
      then Color_hsv (item (channels c) 0) (item (channels c) 1) (item (channels c) 2)
      else
        let ch = channels (rgba c);
            r = item ch 0;
            g = item ch 1;
            b = item ch 2;
            mx = Math_max r g b;
            mn = Math_min r g b;
            d = mx - mn;
            s = (if strict_eq mx 0 then 0 else d / mx);
            v = mx / 255;
            h = (if strict_eq mx mn then 0
                 else if strict_eq mx r then ((g - b) + d * (if g < b then 6 else 0)) / (6 * d)
                 else if strict_eq mx g then ((b - r) + d * 2) / (6 * d)
                 else if strict_eq mx b then ((r - g) + d * 4) / (6 * d)
                 else 0)
        in Color_hsv (h * 360) (s * 100) (v * 100))"

definition hsva :: "Color \<Rightarrow> Color" where
  "hsva c =
     (if type c = HSVA
      then Color_hsva (item (channels c) 0) (item (channels c) 1) (item (channels c) 2)
             (transparency c)
      else let ch = channels (hsv c)
           in Color_hsva (item ch 0) (item ch 1) (item ch 2) (transparency c))"

definition hwb :: "Color \<Rightarrow> Color" where
  "hwb c =
     (let ch = channels (hsv c);
          h = item ch 0 / 360;
          s = item ch 1 / 100;
          v = item ch 2 / 100
      in if type c = HWB
         then Color_hwb (item (channels c) 0) (item (channels c) 1) (item (channels c) 2)
         else Color_hwb (h * 360) (((1 - s) * v) * 100) ((1 - v) * 100))"

definition hwba :: "Color \<Rightarrow> Color" where
  "hwba c =
     (if type c = HWBA
      then Color_hwba (item (channels c) 0) (item (channels c) 1) (item (channels c) 2)
             (transparency c)
      else let ch = channels (hwb c)
           in Color_hwba (item ch 0) (item ch 1) (item ch 2) (transparency c))"

text \<open>\<open>x || 0\<close>: a falsy quotient (zero or NaN, so 0/0 as well) becomes 0.\<close>

definition or_zero :: "number \<Rightarrow> number" where
  "or_zero x = (if truthy x then x else 0)"

definition cmyk :: "Color \<Rightarrow> Color" where
  "cmyk col =
     (if type col = CMYK
      then Color_cmyk (item (channels col) 0) (item (channels col) 1) (item (channels col) 2)
             (item (channels col) 3)
      else
        let ch = channels (rgba col);
            r = item ch 0 / 255;
            g = item ch 1 / 255;
            b = item ch 2 / 255;
            k = Math_min (1 - r) (1 - g) (1 - b);
            c = or_zero ((1 - r - k) / (1 - k));
            m = or_zero ((1 - g - k) / (1 - k));
            y = or_zero ((1 - b - k) / (1 - k))
        in Color_cmyk (c * 100) (m * 100) (y * 100) (k * 100))"

definition toType :: "Color \<Rightarrow> ColorTypes \<Rightarrow> Color" where
  "toType c colorType =
     (case colorType of
        RGB \<Rightarrow> rgb c | RGBA \<Rightarrow> rgba c
      | HSL \<Rightarrow> hsl c | HSLA \<Rightarrow> hsla c
      | HSV \<Rightarrow> hsv c | HSVA \<Rightarrow> hsva c
      | HWB \<Rightarrow> hwb c | HWBA \<Rightarrow> hwba c
      | CMYK \<Rightarrow> cmyk c)"

definition toTransparent :: "Color \<Rightarrow> ColorTypes \<Rightarrow> Color" where
  "toTransparent c t =
     (case t of
        CMYK \<Rightarrow> toType c CMYK
      | HSLA \<Rightarrow> toType c HSLA | HSL \<Rightarrow> toType c HSLA
      | HSVA \<Rightarrow> toType c HSVA | HSV \<Rightarrow> toType c HSVA
      | HWBA \<Rightarrow> toType c HWBA | HWB \<Rightarrow> toType c HWBA
      | RGBA \<Rightarrow> toType c RGBA | RGB \<Rightarrow> toType c RGBA)"

subsection \<open>Getters\<close>

definition red :: "Color \<Rightarrow> number" where
  "red c = item (channels (rgb c)) 0"

definition green :: "Color \<Rightarrow> number" where
  "green c = item (channels (rgb c)) 1"

definition blue :: "Color \<Rightarrow> number" where
  "blue c = item (channels (rgb c)) 2"

definition alpha :: "Color \<Rightarrow> number" where
  "alpha c = transparency c"

definition hue :: "Color \<Rightarrow> number" where
  "hue c = item (channels (hsl c)) 0"

definition saturation :: "Color \<Rightarrow> number" where
  "saturation c = item (channels (hsl c)) 1"

definition lightness :: "Color \<Rightarrow> number" where
  "lightness c = item (channels (hsl c)) 2"



subsection \<open>The formatter\<close>

text \<open>Decimal digits of a natural number, most significant first.\<close>

definition digit_char :: "nat \<Rightarrow> char" where
  "digit_char n = ''0123456789'' ! n"

fun nat_str :: "nat \<Rightarrow> string" where
  "nat_str n = (if n < 10 then [digit_char n] else nat_str (n div 10) @ [digit_char (n mod 10)])"

declare nat_str.simps [simp del]

definition int_str :: "int \<Rightarrow> string" where
  "int_str i = (if i < 0 then ''-'' @ nat_str (nat (- i)) else nat_str (nat i))"

text \<open>
  A number inside a template literal.  An integer below \<open>10^21\<close> in magnitude prints as
  its decimal digits.  Any other finite number prints as the shortest decimal that reads
  back as the same double; that depends on the binary representation, so it is the
  parameter \<open>shortest\<close> here.
\<close>

definition Number_toString :: "(real \<Rightarrow> string) \<Rightarrow> number \<Rightarrow> string" where
  "Number_toString shortest x =
     (case x of
        NaN \<Rightarrow> ''NaN''
      | PInf \<Rightarrow> ''Infinity''
      | NInf \<Rightarrow> ''-Infinity''
      | Fin a \<Rightarrow> if a = of_int \<lfloor>a\<rfloor> \<and> \<bar>a\<bar> < 10 ^ 21 then int_str \<lfloor>a\<rfloor> else shortest a)"

text \<open>\<open>${this.channels[i]}\<close>: a slot that does not exist prints as \<open>undefined\<close>.\<close>

definition slot :: "(real \<Rightarrow> string) \<Rightarrow> number list \<Rightarrow> nat \<Rightarrow> string" where
  "slot shortest xs i = (if i < length xs then Number_toString shortest (xs ! i) else ''undefined'')"

definition string :: "(real \<Rightarrow> string) \<Rightarrow> Color \<Rightarrow> string" where
  "string shortest c =
     (let c0 = slot shortest (channels c) 0;
          c1 = slot shortest (channels c) 1;
          c2 = slot shortest (channels c) 2;
          c3 = slot shortest (channels c) 3;
          a = Number_toString shortest (transparency c)
      in case type c of
           CMYK \<Rightarrow> ''cmyk('' @ c0 @ ''%, '' @ c1 @ ''%, '' @ c2 @ ''%, '' @ c3 @ ''%)''
         | HSL \<Rightarrow> ''hsl('' @ c0 @ '', '' @ c1 @ ''%, '' @ c2 @ ''%)''
         | HSLA \<Rightarrow> ''hsla('' @ c0 @ '', '' @ c1 @ ''%, '' @ c2 @ '', '' @ a @ '')''
         | HSV \<Rightarrow> ''hsv('' @ c0 @ '', '' @ c1 @ ''%, '' @ c2 @ ''%)''
         | HSVA \<Rightarrow> ''hsva('' @ c0 @ '', '' @ c1 @ ''%, '' @ c2 @ ''%, '' @ a @ '')''
         | HWB \<Rightarrow> ''hwb('' @ c0 @ '', '' @ c1 @ ''%, '' @ c2 @ ''%)''
         | HWBA \<Rightarrow> ''hwba('' @ c0 @ '', '' @ c1 @ ''%, '' @ c2 @ ''%, '' @ a @ '')''
         | RGB \<Rightarrow> ''rgb('' @ c0 @ '', '' @ c1 @ '', '' @ c2 @ '')''
         | RGBA \<Rightarrow> ''rgba('' @ c0 @ '', '' @ c1 @ '', '' @ c2 @ '', '' @ a @ '')'')"

subsection \<open>Manipulators\<close>

definition setRed :: "Color \<Rightarrow> number \<Rightarrow> Color" where
  "setRed c v = (let ch = channels (rgb c) in toType (Color_rgb v (item ch 1) (item ch 2)) (type c))"

definition setGreen :: "Color \<Rightarrow> number \<Rightarrow> Color" where
  "setGreen c v = (let ch = channels (rgb c) in toType (Color_rgb (item ch 0) v (item ch 2)) (type c))"

definition setBlue :: "Color \<Rightarrow> number \<Rightarrow> Color" where
  "setBlue c v = (let ch = channels (rgb c) in toType (Color_rgb (item ch 0) (item ch 1) v) (type c))"

definition setAlpha :: "Color \<Rightarrow> number \<Rightarrow> Color" where
  "setAlpha c v =
     (let ch = channels (rgba c)
      in toTransparent (Color_rgba (item ch 0) (item ch 1) (item ch 2) v) (type c))"

definition setHue :: "Color \<Rightarrow> number \<Rightarrow> Color" where
  "setHue c v = (let ch = channels (hsl c) in toType (Color_hsl v (item ch 1) (item ch 2)) (type c))"

definition setSaturation :: "Color \<Rightarrow> number \<Rightarrow> Color" where
  "setSaturation c v =
     (let ch = channels (hsl c) in toType (Color_hsl (item ch 0) v (item ch 2)) (type c))"

definition setLightness :: "Color \<Rightarrow> number \<Rightarrow> Color" where
  "setLightness c v =
     (let ch = channels (hsl c) in toType (Color_hsl (item ch 0) (item ch 1) v) (type c))"

definition setValue :: "Color \<Rightarrow> number \<Rightarrow> Color" where
  "setValue c v = (let ch = channels (hsv c) in toType (Color_hsv (item ch 0) (item ch 1) v) (type c))"

definition setWhiteness :: "Color \<Rightarrow> number \<Rightarrow> Color" where
  "setWhiteness c v =
     (let ch = channels (hwb c) in toType (Color_hwb (item ch 0) v (item ch 2)) (type c))"

definition setBlackness :: "Color \<Rightarrow> number \<Rightarrow> Color" where
  "setBlackness c v =
     (let ch = channels (hwb c) in toType (Color_hwb (item ch 0) (item ch 1) v) (type c))"

definition setCyan :: "Color \<Rightarrow> number \<Rightarrow> Color" where
  "setCyan c v =
     (let ch = channels (cmyk c)
      in toType (Color_cmyk v (item ch 1) (item ch 2) (item ch 3)) (type c))"

definition setMagenta :: "Color \<Rightarrow> number \<Rightarrow> Color" where
  "setMagenta c v =
     (let ch = channels (cmyk c)
      in toType (Color_cmyk (item ch 0) v (item ch 2) (item ch 3)) (type c))"

definition setYellow :: "Color \<Rightarrow> number \<Rightarrow> Color" where
  "setYellow c v =
     (let ch = channels (cmyk c)
      in toType (Color_cmyk (item ch 0) (item ch 1) v (item ch 3)) (type c))"

definition setBlack :: "Color \<Rightarrow> number \<Rightarrow> Color" where
  "setBlack c v =
     (let ch = channels (cmyk c)
      in toType (Color_cmyk (item ch 0) (item ch 1) (item ch 2) v) (type c))"

definition negate :: "Color \<Rightarrow> Color" where
  "negate c =
     (let ch = channels (rgb c)
      in toType (Color_rgb (255 - item ch 0) (255 - item ch 1) (255 - item ch 2)) (type c))"

definition lighten :: "Color \<Rightarrow> number \<Rightarrow> Color" where
  "lighten c factor =
     (let ch = channels (hsl c)
      in toType (Color_hsl (item ch 0) (item ch 1) (item ch 2 * (1 + factor))) (type c))"

definition darken :: "Color \<Rightarrow> number \<Rightarrow> Color" where
  "darken c factor =
     (let ch = channels (hsl c)
      in toType (Color_hsl (item ch 0) (item ch 1) (item ch 2 * (1 - factor))) (type c))"

definition saturate :: "Color \<Rightarrow> number \<Rightarrow> Color" where
  "saturate c factor =
     (let ch = channels (hsl c)
      in toType (Color_hsl (item ch 0) (item ch 1 * (1 + factor)) (item ch 2)) (type c))"

definition desaturate :: "Color \<Rightarrow> number \<Rightarrow> Color" where
  "desaturate c factor =
     (let ch = channels (hsl c)
      in toType (Color_hsl (item ch 0) (item ch 1 * (1 - factor)) (item ch 2)) (type c))"

definition grayscale :: "Color \<Rightarrow> Color" where
  "grayscale c =
     (let ch = channels (rgb c);
          gray = (item ch 0 + item ch 1 + item ch 2) / 3
      in Color_rgb gray gray gray)"

definition fade :: "Color \<Rightarrow> number \<Rightarrow> Color" where
  "fade c factor =
     (let ch = channels (rgba c)
      in toTransparent
           (Color_rgba (item ch 0) (item ch 1) (item ch 2) (transparency c * (1 - factor)))
           (type c))"

definition opaquer :: "Color \<Rightarrow> number \<Rightarrow> Color" where
  "opaquer c factor =
     (let ch = channels (rgba c)
      in toTransparent
           (Color_rgba (item ch 0) (item ch 1) (item ch 2)
              (Math_min2 (transparency c * (1 + factor)) 1))
           (type c))"

text \<open>
  The loop \<open>while (hue < 0) hue += 360\<close> of \<open>rotate\<close>.  It does not end on minus
  infinity, which adding 360 leaves unchanged; not returning is the value \<open>None\<close>.  On
  doubles the addition also leaves every number below \<open>-2^62\<close> unchanged, so the loop of
  the source ends for fewer arguments than this one; from \<open>-2^53\<close> upwards every pass
  adds at least 359, there as here.
\<close>

partial_function (option) wrap_hue :: "number \<Rightarrow> number option" where
  "wrap_hue h = (if h < 0 then wrap_hue (h + 360) else Some h)"

definition rotate :: "Color \<Rightarrow> number \<Rightarrow> Color option" where
  "rotate c v =
     (let ch = channels (hsl c)
      in case wrap_hue (item ch 0 + v) of
           None \<Rightarrow> None
         | Some hue1 \<Rightarrow>
             Some (toType (Color_hsl (js_rem hue1 360) (item ch 1) (item ch 2)) (type c)))"

text \<open>
  \<open>mix\<close>; the weight is optional and defaults to one half.  The two weights \<open>w1\<close> and
  \<open>w2\<close> add up to 1 exactly here and up to rounding on doubles, where a weight of the
  size of \<open>10^15\<close> makes the error of a blended channel a whole unit and more.
\<close>

definition mix :: "Color \<Rightarrow> Color \<Rightarrow> number option \<Rightarrow> Color" where
  "mix c mixColor weight =
     (let color1 = rgb mixColor;
          color2 = rgb c;
          p = (case weight of None \<Rightarrow> 1 / 2 | Some x \<Rightarrow> x);
          w = 2 * p - 1;
          a = alpha color1 - alpha color2;
          w1 = ((if strict_eq (w * a) (- 1) then w else (w + a) / (1 + w * a)) + 1) / 2;
          w2 = 1 - w1;
          mixedColor =
            Color_rgba (w1 * red color1 + w2 * red color2)
              (w1 * green color1 + w2 * green color2)
              (w1 * blue color1 + w2 * blue color2)
              (alpha color1 * p + alpha color2 * (1 - p))
      in toType mixedColor (type c))"

section \<open>The string parser\<close>




subsection \<open>Built-in string functions\<close>















subsection \<open>The regular expressions\<close>





subsection \<open>The parser\<close>












section \<open>The HSL conversions in real arithmetic\<close>

text \<open>
  The formulas of \<open>hsl()\<close> and of the \<open>hsl\<close> case of \<open>rgb()\<close> on finite numbers, with the
  channels scaled to the unit interval: the piecewise factor of \<open>hue2rgb\<close>, the lightness,
  saturation and hue (in sixths of a turn) of three channels, and one channel of the way
  back.  They serve to bound the error of the round trip.
\<close>

definition trap :: "real \<Rightarrow> real" where
  "trap t0 =
     (let t1 = (if t0 < 0 then t0 + 1 else t0);
          t = (if 1 < t1 then t1 - 1 else t1)
      in if t < 1 / 6 then 6 * t
         else if t < 1 / 2 then 1
         else if t < 2 / 3 then (2 / 3 - t) * 6
         else 0)"

definition rnd :: "real \<Rightarrow> real" where
  "rnd x = of_int \<lfloor>x + 1 / 2\<rfloor>"

definition hsl_l :: "real \<Rightarrow> real \<Rightarrow> real \<Rightarrow> real" where
  "hsl_l r g b = (max r (max g b) + min r (min g b)) / 2"

definition hsl_s :: "real \<Rightarrow> real \<Rightarrow> real \<Rightarrow> real" where
  "hsl_s r g b =
     (let mx = max r (max g b); mn = min r (min g b)
      in if mx = mn then 0
         else if 1 / 2 < (mx + mn) / 2 then (mx - mn) / (2 - mx - mn)
         else (mx - mn) / (mx + mn))"

definition hsl_h :: "real \<Rightarrow> real \<Rightarrow> real \<Rightarrow> real" where
  "hsl_h r g b =
     (let mx = max r (max g b); mn = min r (min g b); d = mx - mn
      in if mx = mn then 0
         else if mx = r then (g - b) / d + (if g < b then 6 else 0)
         else if mx = g then (b - r) / d + 2
         else (r - g) / d + 4)"

definition chan_back :: "real \<Rightarrow> real \<Rightarrow> real \<Rightarrow> real \<Rightarrow> real" where
  "chan_back h s l off =
     (if s = 0 then l
      else
        let q = (if l < 1 / 2 then l * (1 + s) else l + s - l * s);
            p = 2 * l - q
        in p + (q - p) * trap (h + off))"

section \<open>Facts about numbers\<close>

lemma numeral_number: "(numeral k :: number) = Fin (numeral k)"
proof (induction k)
  case One
  show ?case by (simp only: numeral.simps one_number_def)
next
  case (Bit0 k)
  then show ?case by (simp only: numeral.simps plus_number.simps)
next
  case (Bit1 k)
  then show ?case by (simp only: numeral.simps plus_number.simps one_number_def)
qed

lemmas number_simps = numeral_number zero_number_def one_number_def minus_number_def
  inf_of_def inverse_number_def

section \<open>Evaluation and structural lemmas\<close>

lemmas conv_simps = number_simps strict_eq_def truthy_def Math_max_def Math_min_def item_def new_Color_def
  Color_rgb_def Color_rgba_def Color_hsl_def Color_hsla_def Color_hsv_def Color_hsva_def Color_hwb_def Color_hwba_def Color_cmyk_def
  hue2rgb_def hsl_to_rgb_def hsv_to_rgb_def hwb_to_rgb_def cmyk_to_rgb_def rgb_def rgba_def hsl_def hsla_def hsv_def hsva_def
  hwb_def hwba_def cmyk_def or_zero_def toType_def toTransparent_def Let_def


lemmas string_simps = string_def slot_def Number_toString_def int_str_def nat_str.simps digit_char_def

lemma type_Color [simp]:
  "type (Color_rgb r g b) = RGB" "type (Color_rgba r g b a) = RGBA"
  "type (Color_hsl h s l) = HSL" "type (Color_hsla h s l a) = HSLA"
  "type (Color_hsv h s v) = HSV" "type (Color_hsva h s v a) = HSVA"
  "type (Color_hwb h w bl) = HWB" "type (Color_hwba h w bl a) = HWBA"
  "type (Color_cmyk c m y k) = CMYK"
  by (simp_all add: Color_rgb_def Color_rgba_def Color_hsl_def Color_hsla_def Color_hsv_def
      Color_hsva_def Color_hwb_def Color_hwba_def Color_cmyk_def new_Color_def)

lemma type_rgb [simp]: "type (rgb c) = RGB"
  by (simp add: rgb_def hsl_to_rgb_def hsv_to_rgb_def hwb_to_rgb_def cmyk_to_rgb_def Let_def
      split: ColorTypes.split)

lemma type_rgba [simp]: "type (rgba c) = RGBA"
  by (simp add: rgba_def Let_def)

lemma type_hsl [simp]: "type (hsl c) = HSL"
  by (simp add: hsl_def Let_def)

lemma type_hsla [simp]: "type (hsla c) = HSLA"
  by (simp add: hsla_def Let_def)

lemma type_hsv [simp]: "type (hsv c) = HSV"
  by (simp add: hsv_def Let_def)

lemma type_hsva [simp]: "type (hsva c) = HSVA"
  by (simp add: hsva_def Let_def)

lemma type_hwb [simp]: "type (hwb c) = HWB"
  by (simp add: hwb_def Let_def)

lemma type_hwba [simp]: "type (hwba c) = HWBA"
  by (simp add: hwba_def Let_def)

lemma type_cmyk [simp]: "type (cmyk c) = CMYK"
  by (simp add: cmyk_def Let_def)

lemma type_toType [simp]: "type (toType c t) = t"
  by (cases t) (simp_all add: toType_def)

lemma wrap_hue_Some_not_NInf:
  assumes "wrap_hue x = Some y"
  shows "x \<noteq> NInf"
  by (rule wrap_hue.raw_induct [where P = "\<lambda>h y. h \<noteq> NInf", OF _ assms])
    (fastforce simp: number_simps split: if_splits)

lemma wrap_hue_NInf: "wrap_hue NInf = None"
  using wrap_hue_Some_not_NInf [of NInf] by (cases "wrap_hue NInf") auto

lemma wrap_hue_nonneg: "\<not> x < 0 \<Longrightarrow> wrap_hue x = Some x"
  by (subst wrap_hue.simps) simp

lemma wrap_hue_Fin_aux:
  "nat \<lceil>- x / 360\<rceil> = n \<Longrightarrow>
   wrap_hue (Fin x) = Some (Fin (if x < 0 then x + 360 * of_int \<lceil>- x / 360\<rceil> else x))"
proof (induction n arbitrary: x)
  case 0
  then have "\<lceil>- x / 360\<rceil> \<le> 0" by simp
  then have "- x / 360 \<le> 0" by (simp add: ceiling_le_iff)
  then have "\<not> x < 0" by simp
  then show ?case by (subst wrap_hue.simps) (simp add: number_simps)
next
  case (Suc n)
  then have pos: "0 < \<lceil>- x / 360\<rceil>" by linarith
  then have neg: "x < 0" by (simp add: less_ceiling_iff)
  have c: "\<lceil>- (x + 360) / 360\<rceil> = \<lceil>- x / 360\<rceil> - 1"
  proof -
    have "- (x + 360) / 360 = - x / 360 - 1" by (simp add: field_simps)
    then show ?thesis by (simp only: ceiling_diff_one)
  qed
  with Suc.prems have "nat \<lceil>- (x + 360) / 360\<rceil> = n" by linarith
  from Suc.IH [OF this]
  have ih: "wrap_hue (Fin (x + 360)) =
      Some (Fin (if x + 360 < 0 then x + 360 + 360 * of_int \<lceil>- (x + 360) / 360\<rceil> else x + 360))" .
  have step: "wrap_hue (Fin x) = wrap_hue (Fin (x + 360))"
    using neg by (subst wrap_hue.simps) (simp add: number_simps)
  show ?case
  proof (cases "x + 360 < 0")
    case True
    with ih step neg c show ?thesis by (simp add: algebra_simps)
  next
    case False
    then have "- x / 360 \<le> 1" by simp
    then have "\<lceil>- x / 360\<rceil> \<le> 1" by (simp add: ceiling_le_iff)
    with pos have "\<lceil>- x / 360\<rceil> = 1" by linarith
    with ih step neg False show ?thesis by simp
  qed
qed

lemma wrap_hue_Fin:
  "wrap_hue (Fin x) = Some (Fin (if x < 0 then x + 360 * of_int \<lceil>- x / 360\<rceil> else x))"
  by (rule wrap_hue_Fin_aux [OF refl])

lemma wrap_hue_total: "wrap_hue x = (case x of NInf \<Rightarrow> None | Fin a \<Rightarrow> Some (Fin (if a < 0 then a + 360 * of_int \<lceil>- a / 360\<rceil> else a)) | _ \<Rightarrow> Some x)"
  by (cases x) (simp_all add: wrap_hue_Fin wrap_hue_NInf wrap_hue_nonneg number_simps)





subsection \<open>Lemmas about the parser\<close>




















subsection \<open>Lemmas about the HSL round trip\<close>

lemma trap_closed:
  assumes "- 1 / 3 \<le> u" "u \<le> 4 / 3"
  shows "trap u = max (max 0 (min 1 (min (6 * u) (4 - 6 * u)))) (min 1 (6 * u - 6))"
  using assms by (auto simp: trap_def Let_def max_def min_def)

lemma trap_range:
  assumes "- 1 / 3 \<le> u" "u \<le> 4 / 3"
  shows "0 \<le> trap u" "trap u \<le> 1"
  using assms by (auto simp: trap_def Let_def)

lemma trap_lipschitz:
  assumes "- 1 / 3 \<le> u" "u \<le> 4 / 3" "- 1 / 3 \<le> v" "v \<le> 4 / 3"
  shows "\<bar>trap u - trap v\<bar> \<le> 6 * \<bar>u - v\<bar>"
  unfolding trap_closed [OF assms(1,2)] trap_closed [OF assms(3,4)]
  by (auto simp: max_def min_def abs_if)

lemma sextant_red_up:
  assumes "0 \<le> y" "y \<le> 1"
  shows "trap (y / 6 + 1 / 3) = 1" "trap (y / 6) = y" "trap (y / 6 - 1 / 3) = 0"
  using assms by (auto simp: trap_def Let_def)

lemma sextant_red_down:
  assumes "0 < z" "z \<le> 1"
  shows "trap ((6 - z) / 6 + 1 / 3) = 1" "trap ((6 - z) / 6) = 0" "trap ((6 - z) / 6 - 1 / 3) = z"
  using assms by (auto simp: trap_def Let_def diff_divide_distrib add_divide_distrib)

lemma sextant_green:
  assumes "- 1 \<le> y" "y \<le> 1"
  shows "trap ((y + 2) / 6) = 1" "trap ((y + 2) / 6 + 1 / 3) = max 0 (- y)"
    "trap ((y + 2) / 6 - 1 / 3) = max 0 y"
  using assms by (auto simp: trap_def Let_def max_def diff_divide_distrib add_divide_distrib)

lemma sextant_blue:
  assumes "- 1 \<le> y" "y \<le> 1"
  shows "trap ((y + 4) / 6 - 1 / 3) = 1" "trap ((y + 4) / 6 + 1 / 3) = max 0 y"
    "trap ((y + 4) / 6) = max 0 (- y)"
  using assms by (auto simp: trap_def Let_def max_def diff_divide_distrib add_divide_distrib)

lemma rnd_close: "\<bar>rnd y - y\<bar> \<le> 1 / 2"
proof -
  have "of_int \<lfloor>y + 1 / 2\<rfloor> \<le> y + 1 / 2" "y + 1 / 2 < of_int \<lfloor>y + 1 / 2\<rfloor> + 1"
    by linarith+
  then show ?thesis
    unfolding rnd_def by linarith
qed

lemma rnd_nonneg: "0 \<le> y \<Longrightarrow> 0 \<le> rnd y"
  unfolding rnd_def by simp

lemma rnd_le_int: "y \<le> of_int n \<Longrightarrow> rnd y \<le> of_int n"
proof -
  assume "y \<le> of_int n"
  then have "y + 1 / 2 < of_int (n + 1)"
    by simp
  then have "\<lfloor>y + 1 / 2\<rfloor> < n + 1"
    by (simp only: floor_less_iff)
  then show ?thesis
    unfolding rnd_def by simp
qed

text \<open>The exact hue gives back each channel.\<close>

lemma hsl_exact:
  fixes r g b :: real
  defines "M \<equiv> max r (max g b)" and "m \<equiv> min r (min g b)"
  assumes ne: "M \<noteq> m"
  shows "r = m + (M - m) * trap (hsl_h r g b / 6 + 1 / 3)"
    and "g = m + (M - m) * trap (hsl_h r g b / 6)"
    and "b = m + (M - m) * trap (hsl_h r g b / 6 - 1 / 3)"
    and "0 \<le> hsl_h r g b" and "hsl_h r g b < 6"
proof -
  have d: "0 < M - m"
    using ne unfolding M_def m_def by (auto simp: max_def min_def split: if_splits)
  have Mc: "M = r \<or> M = g \<or> M = b"
    unfolding M_def by (auto simp: max_def)
  then consider (ru) "M = r" "\<not> g < b" | (rd) "M = r" "g < b" | (gg) "M \<noteq> r" "M = g"
    | (bb) "M \<noteq> r" "M \<noteq> g" "M = b"
    by blast
  then have "r = m + (M - m) * trap (hsl_h r g b / 6 + 1 / 3)
    \<and> g = m + (M - m) * trap (hsl_h r g b / 6)
    \<and> b = m + (M - m) * trap (hsl_h r g b / 6 - 1 / 3)
    \<and> 0 \<le> hsl_h r g b \<and> hsl_h r g b < 6"
  proof cases
    case ru
    then have mb: "m = b"
      unfolding M_def m_def by (auto simp: max_def min_def split: if_splits)
    define y where "y = (g - b) / (M - m)"
    have h: "hsl_h r g b = y"
      unfolding hsl_h_def Let_def M_def [symmetric] m_def [symmetric] y_def
      using ru ne by simp
    have gM: "g \<le> M"
      unfolding M_def by simp
    have y: "0 \<le> y" "y \<le> 1"
      using ru d mb gM by (simp_all add: y_def)
    have dy: "(M - m) * y = g - b"
      using d by (simp add: y_def)
    show ?thesis
      unfolding h using sextant_red_up [OF y] dy ru(1) mb y by simp
  next
    case rd
    then have mg: "m = g"
      unfolding M_def m_def by (auto simp: max_def min_def split: if_splits)
    define z where "z = (b - g) / (M - m)"
    have bM: "b \<le> M"
      unfolding M_def by simp
    have h: "hsl_h r g b = 6 - z"
      unfolding hsl_h_def Let_def M_def [symmetric] m_def [symmetric] z_def
      using rd ne d by (simp add: field_simps)
    have z: "0 < z" "z \<le> 1"
      using rd d mg bM by (simp_all add: z_def)
    have dz: "(M - m) * z = b - g"
      using d by (simp add: z_def)
    show ?thesis
      unfolding h using sextant_red_down [OF z] dz rd(1) mg z by simp
  next
    case gg
    define y where "y = (b - r) / (M - m)"
    have h: "hsl_h r g b = y + 2"
      unfolding hsl_h_def Let_def M_def [symmetric] m_def [symmetric] y_def
      using gg ne by simp
    have bnd: "m \<le> r" "m \<le> b" "r \<le> M" "b \<le> M"
      unfolding M_def m_def by simp_all
    have y: "- 1 \<le> y" "y \<le> 1"
      using d bnd by (simp_all add: y_def field_simps)
    have dy: "(M - m) * y = b - r"
      using d by (simp add: y_def)
    have mm: "m = min r b"
      using gg bnd unfolding M_def m_def by (auto simp: max_def min_def split: if_splits)
    have sy: "0 \<le> y \<longleftrightarrow> r \<le> b" "y \<le> 0 \<longleftrightarrow> b \<le> r"
      using d by (simp_all add: y_def zero_le_divide_iff divide_le_0_iff)
    have pos: "(M - m) * max 0 y = max 0 (b - r)" "(M - m) * max 0 (- y) = max 0 (r - b)"
      using dy sy by (auto simp: max_def)
    have "r = m + max 0 (r - b)" "b = m + max 0 (b - r)"
      unfolding mm by (auto simp: max_def min_def)
    then show ?thesis
      unfolding h using sextant_green [OF y] pos gg(2) y by simp
  next
    case bb
    define y where "y = (r - g) / (M - m)"
    have h: "hsl_h r g b = y + 4"
      unfolding hsl_h_def Let_def M_def [symmetric] m_def [symmetric] y_def
      using bb ne by simp
    have bnd: "m \<le> r" "m \<le> g" "r \<le> M" "g \<le> M"
      unfolding M_def m_def by simp_all
    have y: "- 1 \<le> y" "y \<le> 1"
      using d bnd by (simp_all add: y_def field_simps)
    have dy: "(M - m) * y = r - g"
      using d by (simp add: y_def)
    have mm: "m = min r g"
      using bb bnd unfolding M_def m_def by (auto simp: max_def min_def split: if_splits)
    have sy: "0 \<le> y \<longleftrightarrow> g \<le> r" "y \<le> 0 \<longleftrightarrow> r \<le> g"
      using d by (simp_all add: y_def zero_le_divide_iff divide_le_0_iff)
    have pos: "(M - m) * max 0 y = max 0 (r - g)" "(M - m) * max 0 (- y) = max 0 (g - r)"
      using dy sy by (auto simp: max_def)
    have "r = m + max 0 (r - g)" "g = m + max 0 (g - r)"
      unfolding mm by (auto simp: max_def min_def)
    then show ?thesis
      unfolding h using sextant_blue [OF y] pos bb(3) y by simp
  qed
  then show "r = m + (M - m) * trap (hsl_h r g b / 6 + 1 / 3)"
    and "g = m + (M - m) * trap (hsl_h r g b / 6)"
    and "b = m + (M - m) * trap (hsl_h r g b / 6 - 1 / 3)"
    and "0 \<le> hsl_h r g b" and "hsl_h r g b < 6"
    by simp_all
qed

lemma abs_mult_le:
  fixes u v :: real
  assumes "\<bar>u\<bar> \<le> U" "\<bar>v\<bar> \<le> V"
  shows "\<bar>u * v\<bar> \<le> U * V"
proof -
  have "0 \<le> U"
    using assms(1) by linarith
  then have "\<bar>u\<bar> * \<bar>v\<bar> \<le> U * V"
    using assms by (intro mult_mono) simp_all
  then show ?thesis
    by (simp add: abs_mult)
qed

lemma chan_close:
  fixes r g b x off :: real
  defines "M \<equiv> max r (max g b)" and "m \<equiv> min r (min g b)"
  assumes rng: "0 \<le> r" "r \<le> 1" "0 \<le> g" "g \<le> 1" "0 \<le> b" "b \<le> 1"
    and off: "- 1 / 3 \<le> off" "off \<le> 1 / 3"
    and xm: "m \<le> x" and xM: "x \<le> M"
    and ex: "M \<noteq> m \<Longrightarrow> x = m + (M - m) * trap (hsl_h r g b / 6 + off)"
  shows "\<bar>chan_back (rnd (hsl_h r g b * 60) / 360) (rnd (hsl_s r g b * 100) / 100)
            (rnd (hsl_l r g b * 100) / 100) off - x\<bar> \<le> 1 / 48"
proof -
  define l0 where "l0 = (M + m) / 2"
  define d where "d = M - m"
  define a0 where "a0 = min l0 (1 - l0)"
  define s0 where "s0 = hsl_s r g b"
  define h0 where "h0 = hsl_h r g b"
  define l where "l = rnd (l0 * 100) / 100"
  define s where "s = rnd (s0 * 100) / 100"
  define t where "t = rnd (h0 * 60) / 360"
  have Mm: "0 \<le> m" "m \<le> M" "M \<le> 1"
    using rng unfolding M_def m_def by (auto simp: max_def min_def)
  have hl: "hsl_l r g b = l0"
    by (simp add: hsl_l_def l0_def M_def m_def)
  have l0b: "0 \<le> l0" "l0 \<le> 1"
    using Mm unfolding l0_def by simp_all
  have a0b: "0 \<le> a0" "a0 \<le> 1 / 2"
    using l0b unfolding a0_def by (auto simp: min_def)
  have dd: "0 \<le> d" "d \<le> 1"
    using Mm unfolding d_def by simp_all
  have s0_cases: "d = 2 * a0 * s0 \<and> 0 \<le> s0 \<and> s0 \<le> 1"
  proof (cases "M = m")
    case True
    then have "s0 = 0"
      unfolding s0_def hsl_s_def Let_def M_def [symmetric] m_def [symmetric] by simp
    with True show ?thesis
      by (simp add: d_def)
  next
    case ne: False
    show ?thesis
    proof (cases "1 / 2 < l0")
      case True
      then have "a0 = 1 - l0"
        unfolding a0_def by (auto simp: min_def)
      then have a: "2 * a0 = 2 - M - m"
        unfolding l0_def by (simp add: field_simps)
      have pos: "0 < 2 - M - m"
        using ne Mm by linarith
      have s: "s0 = d / (2 - M - m)"
        unfolding s0_def hsl_s_def Let_def M_def [symmetric] m_def [symmetric]
        using ne True by (simp add: l0_def d_def)
      have "d \<le> 2 - M - m"
        using Mm unfolding d_def by linarith
      with pos dd s have "0 \<le> s0" "s0 \<le> 1"
        by simp_all
      moreover have "d = 2 * a0 * s0"
        unfolding a s using pos by simp
      ultimately show ?thesis
        by simp
    next
      case False
      then have "a0 = l0"
        unfolding a0_def by (auto simp: min_def)
      then have a: "2 * a0 = M + m"
        unfolding l0_def by (simp add: field_simps)
      have pos: "0 < M + m"
        using ne Mm by linarith
      have s: "s0 = d / (M + m)"
        unfolding s0_def hsl_s_def Let_def M_def [symmetric] m_def [symmetric]
        using ne False by (simp add: l0_def d_def)
      have "d \<le> M + m"
        using Mm unfolding d_def by linarith
      with pos dd s have "0 \<le> s0" "s0 \<le> 1"
        by simp_all
      moreover have "d = 2 * a0 * s0"
        unfolding a s using pos by simp
      ultimately show ?thesis
        by simp
    qed
  qed
  then have ds: "d = 2 * a0 * s0" and s0b: "0 \<le> s0" "s0 \<le> 1"
    by simp_all
  have ll: "\<bar>l - l0\<bar> \<le> 1 / 200"
    using rnd_close [of "l0 * 100"] unfolding l_def by (simp add: field_simps)
  have ss: "\<bar>s - s0\<bar> \<le> 1 / 200"
    using rnd_close [of "s0 * 100"] unfolding s_def by (simp add: field_simps)
  have sb: "0 \<le> s" "s \<le> 1"
  proof -
    have "0 \<le> rnd (s0 * 100)"
      using s0b by (intro rnd_nonneg) simp
    moreover have "rnd (s0 * 100) \<le> of_int 100"
      using s0b by (intro rnd_le_int) simp
    ultimately show "0 \<le> s" "s \<le> 1"
      unfolding s_def by simp_all
  qed
  have xl: "\<bar>x - l0\<bar> \<le> d / 2"
    using xm xM unfolding l0_def d_def by (simp add: abs_if field_simps)
  have goal: "\<bar>chan_back t s l off - x\<bar> \<le> 1 / 48"
  proof (cases "s = 0")
    case True
    then have cb: "chan_back t s l off = l"
      by (simp add: chan_back_def)
    from True ss have "s0 \<le> 1 / 200"
      by simp
    moreover have "2 * a0 * s0 \<le> 1 * s0"
      using a0b s0b by (intro mult_right_mono) simp_all
    ultimately have "d \<le> 1 / 200"
      using ds by simp
    with ll xl show ?thesis
      unfolding cb by linarith
  next
    case sne: False
    have ne: "M \<noteq> m"
    proof
      assume "M = m"
      then have "s0 = 0"
        unfolding s0_def hsl_s_def Let_def M_def [symmetric] m_def [symmetric] by simp
      then have "s = 0"
        by (simp add: s_def rnd_def)
      with sne show False
        by simp
    qed
    define T0 where "T0 = trap (h0 / 6 + off)"
    define T' where "T' = trap (t + off)"
    have x: "x = m + d * T0"
      using ex [OF ne] by (simp add: d_def T0_def h0_def)
    have h0b: "0 \<le> h0" "h0 < 6"
      using hsl_exact(4,5) [of r g b] ne unfolding h0_def M_def m_def by simp_all
    have tb: "0 \<le> t" "t \<le> 1"
    proof -
      have "0 \<le> rnd (h0 * 60)"
        using h0b by (intro rnd_nonneg) simp
      moreover have "rnd (h0 * 60) \<le> of_int 360"
        using h0b by (intro rnd_le_int) simp
      ultimately show "0 \<le> t" "t \<le> 1"
        unfolding t_def by simp_all
    qed
    have tt: "\<bar>t - h0 / 6\<bar> \<le> 1 / 720"
      using rnd_close [of "h0 * 60"] unfolding t_def by (simp add: field_simps)
    have dom: "- 1 / 3 \<le> t + off" "t + off \<le> 4 / 3" "- 1 / 3 \<le> h0 / 6 + off"
      "h0 / 6 + off \<le> 4 / 3"
      using tb h0b off by simp_all
    have Tb: "0 \<le> T'" "T' \<le> 1"
      unfolding T'_def using trap_range [OF dom(1,2)] by simp_all
    have "\<bar>T' - T0\<bar> \<le> 6 * \<bar>(t + off) - (h0 / 6 + off)\<bar>"
      unfolding T'_def T0_def by (rule trap_lipschitz [OF dom])
    with tt have TT: "\<bar>T' - T0\<bar> \<le> 1 / 120"
      by simp
    define a where "a = min l (1 - l)"
    have cb: "chan_back t s l off = (l - s * a) + (2 * (s * a)) * T'"
    proof (cases "l < 1 / 2")
      case True
      then have "a = l"
        unfolding a_def by (auto simp: min_def)
      then show ?thesis
        using sne True unfolding chan_back_def Let_def T'_def by (simp add: algebra_simps)
    next
      case False
      then have al: "a = 1 - l"
        unfolding a_def by (auto simp: min_def)
      show ?thesis
        unfolding al chan_back_def Let_def T'_def using sne False by (simp add: algebra_simps)
    qed
    define e where "e = s * a - s0 * a0"
    have aa: "\<bar>a - a0\<bar> \<le> 1 / 200"
      using ll unfolding a_def a0_def by linarith
    have e1: "\<bar>s * (a - a0)\<bar> \<le> 1 * (1 / 200)"
      using sb aa by (intro abs_mult_le) simp_all
    have e2: "\<bar>a0 * (s - s0)\<bar> \<le> (1 / 2) * (1 / 200)"
      using a0b ss by (intro abs_mult_le) simp_all
    have "e = s * (a - a0) + a0 * (s - s0)"
      unfolding e_def by (simp add: algebra_simps)
    with e1 e2 have eb: "\<bar>e\<bar> \<le> 3 / 400"
      by linarith
    define A where "A = (l - l0) - e"
    define B where "B = (l - l0) + e"
    have AB: "\<bar>A\<bar> \<le> 1 / 80" "\<bar>B\<bar> \<le> 1 / 80"
      using ll eb unfolding A_def B_def by linarith+
    have "a0 * s0 = d / 2"
      using ds by simp
    then have mm: "m = l0 - a0 * s0"
      unfolding l0_def d_def by (simp add: field_simps)
    define P1 where "P1 = A * (1 - T')"
    define P2 where "P2 = B * T'"
    define P3 where "P3 = d * (T' - T0)"
    have id: "chan_back t s l off - x = P1 + P2 + P3"
      unfolding P1_def P2_def P3_def cb x A_def B_def e_def mm ds by (simp add: algebra_simps)
    have p1: "\<bar>P1\<bar> \<le> (1 / 80) * (1 - T')"
      unfolding P1_def using AB(1) Tb by (intro abs_mult_le) simp_all
    have p2: "\<bar>P2\<bar> \<le> (1 / 80) * T'"
      unfolding P2_def using AB(2) Tb by (intro abs_mult_le) simp_all
    have p3: "\<bar>P3\<bar> \<le> 1 * (1 / 120)"
      unfolding P3_def using dd TT by (intro abs_mult_le) simp_all
    define N1 where "N1 = \<bar>P1\<bar>"
    define N2 where "N2 = \<bar>P2\<bar>"
    define N3 where "N3 = \<bar>P3\<bar>"
    from p1 p2 p3 have n: "N1 \<le> (1 - T') / 80" "N2 \<le> T' / 80" "N3 \<le> 1 / 120"
      unfolding N1_def N2_def N3_def by simp_all
    have "\<bar>P1 + P2 + P3\<bar> \<le> \<bar>P1 + P2\<bar> + \<bar>P3\<bar>"
      by (rule abs_triangle_ineq)
    also have "\<dots> \<le> (N1 + N2) + N3"
      unfolding N1_def N2_def N3_def by (intro add_right_mono abs_triangle_ineq)
    also have "\<dots> \<le> 1 / 48"
      using n by argo
    finally show ?thesis
      unfolding id .
  qed
  then show ?thesis
    unfolding t_def s_def l_def h0_def s0_def hl .
qed

lemma Fin_arith:
  "Fin a - Fin b = Fin (a - b)"
  "Fin a * Fin b = Fin (a * b)"
  "(Fin a < Fin b) = (a < b)"
  "strict_eq (Fin a) (Fin b) = (a = b)"
  "Math_max2 (Fin a) (Fin b) = Fin (max a b)"
  "Math_min2 (Fin a) (Fin b) = Fin (min a b)"
  "Math_round (Fin a) = Fin (rnd a)"
  by (simp_all add: minus_number_def strict_eq_def rnd_def max_def min_def not_less)

lemma Fin_divide: "b \<noteq> 0 \<Longrightarrow> Fin a / Fin b = Fin (a / b)"
  by simp

lemma rnd_of_int: "rnd (of_int k) = of_int k"
  by (simp add: rnd_def)

lemma rgba_channels:
  "channels (rgba (Color_rgb (Fin (of_int R)) (Fin (of_int G)) (Fin (of_int B)))) =
     [Fin (of_int R), Fin (of_int G), Fin (of_int B)]"
  by (simp add: rgba_def rgb_def Color_rgb_def Color_rgba_def new_Color_def item_def Let_def)

lemma hue2rgb_Fin: "hue2rgb (Fin p) (Fin q) (Fin t) = Fin (p + (q - p) * trap t)"
  by (auto simp: hue2rgb_def trap_def Let_def number_simps field_simps)

lemma hsl_of_channels:
  fixes x y z :: real
  defines "r \<equiv> x / 255" and "g \<equiv> y / 255" and "b \<equiv> z / 255"
  assumes ty: "type c \<noteq> HSL" and ch: "channels (rgba c) = [Fin x, Fin y, Fin z]"
    and rng: "0 \<le> x" "x \<le> 255" "0 \<le> y" "y \<le> 255" "0 \<le> z" "z \<le> 255"
  shows "hsl c = Color_hsl (Fin (hsl_h r g b * 60)) (Fin (hsl_s r g b * 100))
           (Fin (hsl_l r g b * 100))"
proof -
  define M where "M = max r (max g b)"
  define m where "m = min r (min g b)"
  have Mm: "0 \<le> m" "m \<le> M" "M \<le> 1"
    using rng unfolding M_def m_def r_def g_def b_def by (auto simp: max_def min_def)
  have ch3: "item (channels (rgba c)) 0 / 255 = Fin r" "item (channels (rgba c)) 1 / 255 = Fin g"
    "item (channels (rgba c)) 2 / 255 = Fin b"
    unfolding ch by (simp_all add: item_def numeral_number r_def g_def b_def)
  have mx: "Math_max (Fin r) (Fin g) (Fin b) = Fin M"
    unfolding Math_max_def Fin_arith M_def by (simp add: max.assoc)
  have mn: "Math_min (Fin r) (Fin g) (Fin b) = Fin m"
    unfolding Math_min_def Fin_arith m_def by (simp add: min.assoc)
  show ?thesis
  proof (cases "M = m")
    case True
    have h: "hsl_h r g b = 0" and s: "hsl_s r g b = 0"
      unfolding hsl_h_def hsl_s_def Let_def M_def [symmetric] m_def [symmetric] using True
      by simp_all
    have l: "hsl_l r g b = (M + m) / 2"
      by (simp add: hsl_l_def M_def m_def)
    show ?thesis
      unfolding hsl_def Let_def ch3 mx mn h s l using ty True
      by (simp add: Fin_arith number_simps)
  next
    case ne: False
    have d: "M - m \<noteq> 0" and p1: "M + m \<noteq> 0" and p2: "2 - M - m \<noteq> 0"
      using ne Mm by simp_all
    have l: "hsl_l r g b = (M + m) / 2"
      by (simp add: hsl_l_def M_def m_def)
    have s: "hsl_s r g b = (if 1 / 2 < (M + m) / 2 then (M - m) / (2 - M - m)
        else (M - m) / (M + m))"
      unfolding hsl_s_def Let_def M_def [symmetric] m_def [symmetric] using ne by simp
    have h: "hsl_h r g b = (if M = r then (g - b) / (M - m) + (if g < b then 6 else 0)
         else if M = g then (b - r) / (M - m) + 2 else (r - g) / (M - m) + 4)"
      unfolding hsl_h_def Let_def M_def [symmetric] m_def [symmetric] using ne by simp
    have Mc: "M = r \<or> M = g \<or> M = b"
      unfolding M_def by (auto simp: max_def)
    show ?thesis
      unfolding hsl_def Let_def ch3 mx mn h s l using ty ne d p1 p2 Mc
      by (auto simp add: Fin_arith number_simps)
  qed
qed

lemma rgb_of_hsl:
  "rgb (Color_hsl (Fin hh) (Fin ss) (Fin ll)) =
     Color_rgb (Fin (chan_back (rnd hh / 360) (rnd ss / 100) (rnd ll / 100) (1 / 3) * 255))
       (Fin (chan_back (rnd hh / 360) (rnd ss / 100) (rnd ll / 100) 0 * 255))
       (Fin (chan_back (rnd hh / 360) (rnd ss / 100) (rnd ll / 100) (- 1 / 3) * 255))"
proof -
  define c where "c = Color_hsl (Fin hh) (Fin ss) (Fin ll)"
  have ty: "type c = HSL"
    by (simp add: c_def)
  have ch: "item (channels c) 0 / 360 = Fin (rnd hh / 360)"
    "item (channels c) 1 / 100 = Fin (rnd ss / 100)"
    "item (channels c) 2 / 100 = Fin (rnd ll / 100)"
    by (simp_all add: c_def Color_hsl_def new_Color_def item_def numeral_number rnd_def)
  have third: "(1 / 3 :: number) = Fin (1 / 3)" "(1 / 2 :: number) = Fin (1 / 2)"
    by (simp_all add: number_simps)
  show ?thesis
    unfolding c_def [symmetric] rgb_def ty ColorTypes.case hsl_to_rgb_def Let_def ch
    by (simp add: chan_back_def Let_def Fin_arith hue2rgb_Fin number_simps algebra_simps)
qed

lemma round_within:
  fixes X :: real and R :: int
  assumes "\<bar>X - of_int R / 255\<bar> \<le> 1 / 48"
  shows "\<bar>\<lfloor>X * 255 + 1 / 2\<rfloor> - R\<bar> \<le> 5"
proof -
  from assms have "X - of_int R / 255 \<le> 1 / 48" "- (1 / 48) \<le> X - of_int R / 255"
    by linarith+
  then have lo: "of_int R - 255 / 48 \<le> X * 255" and hi: "X * 255 \<le> of_int R + 255 / 48"
    by argo+
  have "of_int (R - 5) \<le> X * 255 + 1 / 2"
    using lo by simp
  then have a: "R - 5 \<le> \<lfloor>X * 255 + 1 / 2\<rfloor>"
    by (simp only: le_floor_iff)
  have "X * 255 + 1 / 2 < of_int (R + 6)"
    using hi by simp
  then have "\<lfloor>X * 255 + 1 / 2\<rfloor> < R + 6"
    by (simp only: floor_less_iff)
  with a show ?thesis
    by linarith
qed

section \<open>The claims\<close>

text \<open>
  C10.  An alpha-carrying color built with alpha exactly 0 has alpha 1: the rule
  \<open>alpha || 1\<close> of the private constructor, which supplies 1 for a missing alpha, also
  replaces a supplied 0.  This holds for \<open>rgba\<close>, \<open>hsla\<close>, \<open>hsva\<close> and \<open>hwba\<close> and for all
  channel values.
\<close>

theorem alpha_zero_is_one:
  "alpha (Color_rgba r g b 0) = 1 \<and> alpha (Color_hsla h s l 0) = 1 \<and>
   alpha (Color_hsva h s v 0) = 1 \<and> alpha (Color_hwba h w bl 0) = 1"
  by (simp add: alpha_def Color_rgba_def Color_hsla_def Color_hsva_def Color_hwba_def
      new_Color_def truthy_def zero_number_def)

text \<open>
  C6.  The chain \<open>rgb(150,10,240).setGreen(100).grayscale().lighten(0.6)\<close> formats to
  the string \<open>rgb(260, 260, 260)\<close>: the channel value 260 is neither clamped by the
  manipulators nor by the formatter.  The three channels are integers, so the result
  does not depend on how a fractional number is printed.
\<close>

theorem chained_overflow_string:
  "string shortest (lighten (grayscale (setGreen (Color_rgb 150 10 240) 100)) (6 / 10)) =
     ''rgb(260, 260, 260)''"
  by (simp add: setGreen_def grayscale_def lighten_def conv_simps string_simps)

text \<open>
  C7.  The claim asks for the pattern \<open>hsla(H, S%, L%, A)\<close>.  The formatter prints the
  lightness of an \<open>hsla\<close> color without the percent sign, unlike its cases for \<open>hsl\<close>,
  \<open>hsva\<close> and \<open>hwba\<close>: \<open>hsla(173, 76, 89, 0.5)\<close> formats to
  \<open>hsla(173, 76%, 89, 0.5)\<close>.
\<close>

theorem hsla_string_lacks_percent:
  "string shortest (Color_hsla 173 76 89 (1 / 2)) =
     ''hsla(173, 76%, 89, '' @ shortest (1 / 2) @ '')''"
  by (simp add: conv_simps string_simps)

text \<open>
  C2.  The claim gives \<open>r = 255 (1 - c/100) (1 - k/100)\<close> with \<open>k\<close> the fourth stored
  channel.  The conversion divides cyan by 360 and reads the black channel from slot 2,
  the slot of yellow: pure black \<open>cmyk(0, 0, 0, 100)\<close> converts to white, and pure cyan
  \<open>cmyk(100, 0, 0, 0)\<close> keeps a red channel of 184.
\<close>

theorem cmyk_to_rgb_wrong_divisor_and_index:
  "rgb (Color_cmyk 0 0 0 100) = Color_rgb 255 255 255 \<and>
   rgb (Color_cmyk 100 0 0 0) = Color_rgb 184 255 255"
  by (simp add: conv_simps)




text \<open>
  C5, as stated: for every color and every manipulator of the list, \<open>rotate\<close> among them,
  the result has the type tag of the color.  \<open>rotate\<close> has no result when the hue plus the
  argument is minus infinity: adding 360 leaves it unchanged and the loop never ends.
  \<open>hsl(0, 50, 50).rotate(-Infinity)\<close> does not return.
\<close>

theorem rotate_minus_infinity_counterexample:
  "rotate (Color_hsl 0 50 50) NInf = None \<and>
   map_option type (rotate (Color_hsl 0 50 50) NInf) \<noteq> Some (type (Color_hsl 0 50 50))"
proof -
  have s: "item (channels (hsl (Color_hsl 0 50 50))) 0 + NInf = NInf"
    by (simp add: conv_simps)
  have "rotate (Color_hsl 0 50 50) NInf = None"
    unfolding rotate_def Let_def s wrap_hue_NInf by simp
  then show ?thesis by simp
qed

text \<open>
  C5, amended.  Each of \<open>setRed\<close>, \<open>setGreen\<close>, \<open>setBlue\<close>, \<open>setHue\<close>, \<open>setSaturation\<close>,
  \<open>setLightness\<close>, \<open>setValue\<close>, \<open>setWhiteness\<close>, \<open>setBlackness\<close>, \<open>setCyan\<close>, \<open>setMagenta\<close>,
  \<open>setYellow\<close>, \<open>setBlack\<close>, \<open>negate\<close>, \<open>lighten\<close>, \<open>darken\<close>, \<open>saturate\<close>, \<open>desaturate\<close>
  and \<open>mix\<close> returns a color with the type tag of the color it is applied to, for every
  color and every argument; \<open>grayscale\<close> always returns the tag \<open>rgb\<close>.  \<open>rotate\<close> returns
  a color with that tag whenever the hue plus the argument is not below \<open>-2^53\<close>, and
  whenever it returns at all the tag is that of the color.  Down to \<open>-2^53\<close> the loop of
  \<open>rotate\<close> gains at least 359 in every pass on doubles too; further down the statement
  says nothing about \<open>rotate\<close> returning.
\<close>

theorem manipulators_preserve_type:
  "type (setRed c v) = type c \<and> type (setGreen c v) = type c \<and> type (setBlue c v) = type c \<and>
   type (setHue c v) = type c \<and> type (setSaturation c v) = type c \<and>
   type (setLightness c v) = type c \<and> type (setValue c v) = type c \<and>
   type (setWhiteness c v) = type c \<and> type (setBlackness c v) = type c \<and>
   type (setCyan c v) = type c \<and> type (setMagenta c v) = type c \<and>
   type (setYellow c v) = type c \<and> type (setBlack c v) = type c \<and>
   type (negate c) = type c \<and> type (lighten c v) = type c \<and> type (darken c v) = type c \<and>
   type (saturate c v) = type c \<and> type (desaturate c v) = type c \<and>
   (\<not> hue c + v < Fin (- (2 ^ 53)) \<longrightarrow> (\<exists>c'. rotate c v = Some c' \<and> type c' = type c)) \<and>
   (\<forall>c'. rotate c v = Some c' \<longrightarrow> type c' = type c) \<and>
   type (mix c other weight) = type c \<and>
   type (grayscale c) = RGB"
proof -
  have ret: "\<exists>c'. rotate c v = Some c' \<and> type c' = type c" if "\<not> hue c + v < Fin (- (2 ^ 53))"
    using that
    by (cases "item (channels (hsl c)) 0 + v")
      (simp_all add: rotate_def hue_def Let_def wrap_hue_total)
  have tag: "type c' = type c" if "rotate c v = Some c'" for c'
    using that by (auto simp: rotate_def Let_def split: option.splits)
  show ?thesis
    using ret tag
    by (simp add: setRed_def setGreen_def setBlue_def setHue_def setSaturation_def
        setLightness_def setValue_def setWhiteness_def setBlackness_def setCyan_def
        setMagenta_def setYellow_def setBlack_def negate_def lighten_def darken_def
        saturate_def desaturate_def mix_def grayscale_def Let_def)
qed

theorem manipulators_preserve_type_witness:
  "\<not> hue (Color_hsl 0 50 50) + Fin (- 720) < Fin (- (2 ^ 53)) \<and>
   (\<exists>c'. rotate (Color_hsl 0 50 50) (Fin (- 720)) = Some c' \<and> type c' = HSL)"
proof -
  have h: "\<not> hue (Color_hsl 0 50 50) + Fin (- 720) < Fin (- (2 ^ 53))"
    by (simp add: hue_def conv_simps)
  show ?thesis
    using h manipulators_preserve_type [of "Color_hsl 0 50 50" "Fin (- 720)"] by simp
qed

text \<open>
  C8.  The claim asks for a hue in the half-open interval from 0 to 360 after \<open>rotate\<close>.
  \<open>rotate\<close> wraps the sum into that interval and only then hands it to the constructor,
  which rounds: \<open>hsl(0, 50, 50).rotate(359.6)\<close> has hue 360.
\<close>

theorem rotate_hue_reaches_360:
  "map_option hue (rotate (Color_hsl 0 50 50) (3596 / 10)) = Some 360"
  by (simp add: rotate_def hue_def wrap_hue_total conv_simps)

text \<open>
  C3, as stated: \<open>c.mix(c, w)\<close> is value-equal to \<open>c\<close> for every color.  \<open>mix\<close> blends in
  RGB and converts back, and a gray has no hue in RGB: \<open>hsl(123, 0, 50)\<close> mixed with itself
  is \<open>hsl(0, 0, 50)\<close>.
\<close>

theorem mix_self_counterexample:
  "mix (Color_hsl 123 0 50) (Color_hsl 123 0 50) (Some (1 / 2)) = Color_hsl 0 0 50 \<and>
   Color_hsl 0 0 50 \<noteq> Color_hsl 123 0 50"
  by (simp add: mix_def alpha_def red_def green_def blue_def conv_simps)

text \<open>
  C3, amended: for every color \<open>c\<close> in plain RGB space with whole channels from 0 to 255
  and every weight from 0 to 1 (or the default weight), \<open>c.mix(c, w)\<close> is value-equal to
  \<open>c\<close>; for an \<open>rgba\<close> color with such channels the result has the tag \<open>rgba\<close> and the
  channels of \<open>c\<close>.  Within these bounds the blended channel is computed to within
  \<open>10^-12\<close> on doubles and is rounded back to the channel; for weights of the size of
  \<open>10^15\<close> it is not.
\<close>

theorem mix_self_rgb:
  fixes R G B :: int and w :: real
  assumes "0 \<le> R" "R \<le> 255" "0 \<le> G" "G \<le> 255" "0 \<le> B" "B \<le> 255" "0 \<le> w" "w \<le> 1"
  shows "mix (Color_rgb (Fin (of_int R)) (Fin (of_int G)) (Fin (of_int B)))
             (Color_rgb (Fin (of_int R)) (Fin (of_int G)) (Fin (of_int B))) (Some (Fin w)) =
           Color_rgb (Fin (of_int R)) (Fin (of_int G)) (Fin (of_int B)) \<and>
         mix (Color_rgb (Fin (of_int R)) (Fin (of_int G)) (Fin (of_int B)))
             (Color_rgb (Fin (of_int R)) (Fin (of_int G)) (Fin (of_int B))) None =
           Color_rgb (Fin (of_int R)) (Fin (of_int G)) (Fin (of_int B)) \<and>
         type (mix (Color_rgba (Fin (of_int R)) (Fin (of_int G)) (Fin (of_int B)) a)
                   (Color_rgba (Fin (of_int R)) (Fin (of_int G)) (Fin (of_int B)) a)
                   (Some (Fin w))) = RGBA \<and>
         channels (mix (Color_rgba (Fin (of_int R)) (Fin (of_int G)) (Fin (of_int B)) a)
                       (Color_rgba (Fin (of_int R)) (Fin (of_int G)) (Fin (of_int B)) a)
                       (Some (Fin w))) =
           [Fin (of_int R), Fin (of_int G), Fin (of_int B)]"
proof -
  define r g b :: real where "r = of_int R" and "g = of_int G" and "b = of_int B"
  have fl: "\<lfloor>r + 1 / 2\<rfloor> = R" "\<lfloor>g + 1 / 2\<rfloor> = G" "\<lfloor>b + 1 / 2\<rfloor> = B"
    unfolding r_def g_def b_def by linarith+
  define c where "c = Color_rgb (Fin r) (Fin g) (Fin b)"
  have rgb_c: "rgb c = c"
    by (simp add: c_def rgb_def Color_rgb_def new_Color_def item_def)
  have al: "alpha c = 1"
    by (simp add: c_def alpha_def Color_rgb_def new_Color_def)
  have ch: "red c = Fin (of_int \<lfloor>r + 1 / 2\<rfloor>)" "green c = Fin (of_int \<lfloor>g + 1 / 2\<rfloor>)"
      "blue c = Fin (of_int \<lfloor>b + 1 / 2\<rfloor>)"
    by (simp_all add: red_def green_def blue_def rgb_c) (simp_all add: c_def Color_rgb_def new_Color_def item_def)
  have w1: "((if strict_eq ((2 * Fin p - 1) * (1 - 1)) (- 1) then 2 * Fin p - 1
              else (2 * Fin p - 1 + (1 - 1)) / (1 + (2 * Fin p - 1) * (1 - 1))) + 1) / 2 = Fin p" for p
    by (simp add: number_simps strict_eq_def)
  have bl: "Fin p * Fin x + (1 - Fin p) * Fin x = Fin x" for p x
    by (simp add: number_simps algebra_simps)
  have al2: "1 * Fin p + 1 * (1 - Fin p) = (1 :: number)" for p
    by (simp add: number_simps)
  have res: "toType (Color_rgba (Fin (of_int i)) (Fin (of_int j)) (Fin (of_int k)) 1) RGB =
             \<lparr>channels = [Fin (of_int i), Fin (of_int j), Fin (of_int k)], type = RGB, transparency = 1\<rparr>" for i j k
    by (simp add: toType_def rgb_def Color_rgba_def Color_rgb_def new_Color_def item_def)
  have c_eq: "c = \<lparr>channels = [Fin (of_int \<lfloor>r + 1 / 2\<rfloor>), Fin (of_int \<lfloor>g + 1 / 2\<rfloor>),
      Fin (of_int \<lfloor>b + 1 / 2\<rfloor>)], type = RGB, transparency = 1\<rparr>"
    by (simp add: c_def Color_rgb_def new_Color_def)
  have ty: "type c = RGB"
    by (simp add: c_def)
  have m: "mix c c (Some (Fin p)) = c" for p
    unfolding mix_def Let_def rgb_c al ch option.case w1 bl al2 ty res
    by (rule c_eq [symmetric])
  have half: "(1 / 2 :: number) = Fin (1 / 2)"
    by (simp add: number_simps)
  have m': "mix c c None = c"
    unfolding mix_def Let_def rgb_c al ch option.case half w1 bl al2 ty res
    by (rule c_eq [symmetric])
  define e where "e = Color_rgba (Fin r) (Fin g) (Fin b) a"
  have rgb_e: "rgb e = c"
    by (simp add: e_def c_def rgb_def Color_rgba_def Color_rgb_def new_Color_def item_def)
  have tye: "type e = RGBA"
    by (simp add: e_def)
  have rese: "toType (Color_rgba (Fin (of_int i)) (Fin (of_int j)) (Fin (of_int k)) 1) RGBA =
             \<lparr>channels = [Fin (of_int i), Fin (of_int j), Fin (of_int k)], type = RGBA, transparency = 1\<rparr>" for i j k
    by (simp add: toType_def rgba_def Color_rgba_def new_Color_def item_def truthy_def number_simps)
  have me: "mix e e (Some (Fin p)) =
      \<lparr>channels = [Fin (of_int \<lfloor>r + 1 / 2\<rfloor>), Fin (of_int \<lfloor>g + 1 / 2\<rfloor>),
      Fin (of_int \<lfloor>b + 1 / 2\<rfloor>)], type = RGBA, transparency = 1\<rparr>" for p
    unfolding mix_def Let_def rgb_e al ch option.case w1 bl al2 tye rese
    by (rule refl)
  have che: "channels e = [Fin (of_int \<lfloor>r + 1 / 2\<rfloor>), Fin (of_int \<lfloor>g + 1 / 2\<rfloor>),
      Fin (of_int \<lfloor>b + 1 / 2\<rfloor>)]"
    by (simp add: e_def Color_rgba_def new_Color_def)
  have "type (mix e e (Some (Fin w))) = RGBA"
      "channels (mix e e (Some (Fin w))) = [Fin (of_int R), Fin (of_int G), Fin (of_int B)]"
    by (simp_all add: me fl)
  then show ?thesis
    using m m' unfolding c_def e_def r_def g_def b_def by simp
qed

theorem mix_self_rgb_witness:
  "(0 :: int) \<le> 10 \<and> (10 :: int) \<le> 255 \<and> (0 :: int) \<le> 20 \<and> (20 :: int) \<le> 255
   \<and> (0 :: int) \<le> 30 \<and> (30 :: int) \<le> 255 \<and> (0 :: real) \<le> 1 / 4 \<and> (1 / 4 :: real) \<le> 1
   \<and> mix (Color_rgb 10 20 30) (Color_rgb 10 20 30) (Some (1 / 4)) = Color_rgb 10 20 30
   \<and> mix (Color_rgb 10 20 30) (Color_rgb 10 20 30) None = Color_rgb 10 20 30
   \<and> type (mix (Color_rgba 10 20 30 (1 / 2)) (Color_rgba 10 20 30 (1 / 2)) (Some (1 / 4))) = RGBA
   \<and> channels (mix (Color_rgba 10 20 30 (1 / 2)) (Color_rgba 10 20 30 (1 / 2)) (Some (1 / 4))) =
       [10, 20, 30]"
  using mix_self_rgb [of 10 20 30 "1 / 4" "1 / 2"]
  by (simp add: number_simps)





text \<open>
  C1, as stated: RGB to X and back, for X among HSL, HSV and HWB, moves no channel of an
  RGB color with integer channels from 0 to 255 by more than 1.  At \<open>rgb(2, 228, 230)\<close> the
  way through HSL gives \<open>rgb(2, 223, 227)\<close>, and the ways through HSV and HWB give
  \<open>rgb(0, 1, 1)\<close>: their cases of \<open>rgb()\<close> hand values between 0 and 1 to the constructor.
\<close>

theorem round_trip_counterexample:
  "rgb (hsl (Color_rgb 2 228 230)) = Color_rgb 2 223 227 \<and>
   rgb (hsv (Color_rgb 2 228 230)) = Color_rgb 0 1 1 \<and>
   rgb (hwb (Color_rgb 2 228 230)) = Color_rgb 0 1 1"
  by (simp add: conv_simps)

text \<open>
  C1, amended: for every RGB color with integer channels from 0 to 255, converting it to
  HSL and back gives integer channels, each within 5 of the original.  The three HSL
  channels are rounded to a whole degree and whole percents, which costs up to 1/48 of
  the channel range before the last rounding.
\<close>

theorem hsl_round_trip:
  fixes R G B :: int
  assumes "0 \<le> R" "R \<le> 255" "0 \<le> G" "G \<le> 255" "0 \<le> B" "B \<le> 255"
  shows "\<exists>R' G' B'.
           channels (rgb (hsl (Color_rgb (Fin (of_int R)) (Fin (of_int G)) (Fin (of_int B))))) =
             [Fin (of_int R'), Fin (of_int G'), Fin (of_int B')]
           \<and> \<bar>R' - R\<bar> \<le> 5 \<and> \<bar>G' - G\<bar> \<le> 5 \<and> \<bar>B' - B\<bar> \<le> 5"
proof -
  define r g b :: real where "r = of_int R / 255" and "g = of_int G / 255" and "b = of_int B / 255"
  define c where "c = Color_rgb (Fin (of_int R)) (Fin (of_int G)) (Fin (of_int B))"
  define h s l where "h = rnd (hsl_h r g b * 60) / 360" and "s = rnd (hsl_s r g b * 100) / 100"
    and "l = rnd (hsl_l r g b * 100) / 100"
  have rng: "0 \<le> r" "r \<le> 1" "0 \<le> g" "g \<le> 1" "0 \<le> b" "b \<le> 1"
    using assms by (simp_all add: r_def g_def b_def)
  have ty: "type c \<noteq> HSL"
    by (simp add: c_def)
  have fw: "hsl c = Color_hsl (Fin (hsl_h r g b * 60)) (Fin (hsl_s r g b * 100))
      (Fin (hsl_l r g b * 100))"
    unfolding r_def g_def b_def
    using assms by (intro hsl_of_channels [OF ty]) (simp_all add: c_def rgba_channels)
  have bw: "channels (rgb (hsl c)) =
      [Fin (of_int \<lfloor>chan_back h s l (1 / 3) * 255 + 1 / 2\<rfloor>),
       Fin (of_int \<lfloor>chan_back h s l 0 * 255 + 1 / 2\<rfloor>),
       Fin (of_int \<lfloor>chan_back h s l (- 1 / 3) * 255 + 1 / 2\<rfloor>)]"
    unfolding fw rgb_of_hsl h_def s_def l_def
    by (simp add: Color_rgb_def new_Color_def)
  have a0: "hsl_h r g b / 6 + 0 = hsl_h r g b / 6"
    and a3: "hsl_h r g b / 6 + - 1 / 3 = hsl_h r g b / 6 - 1 / 3"
    by simp_all
  have cr: "\<bar>chan_back h s l (1 / 3) - r\<bar> \<le> 1 / 48"
    unfolding h_def s_def l_def
  proof (rule chan_close [OF rng])
    show "max r (max g b) \<noteq> min r (min g b) \<Longrightarrow>
      r = min r (min g b) + (max r (max g b) - min r (min g b)) * trap (hsl_h r g b / 6 + 1 / 3)"
      by (rule hsl_exact(1))
  qed simp_all
  have cg: "\<bar>chan_back h s l 0 - g\<bar> \<le> 1 / 48"
    unfolding h_def s_def l_def
  proof (rule chan_close [OF rng])
    show "max r (max g b) \<noteq> min r (min g b) \<Longrightarrow>
      g = min r (min g b) + (max r (max g b) - min r (min g b)) * trap (hsl_h r g b / 6 + 0)"
      unfolding a0 by (rule hsl_exact(2))
  qed simp_all
  have cb: "\<bar>chan_back h s l (- 1 / 3) - b\<bar> \<le> 1 / 48"
    unfolding h_def s_def l_def
  proof (rule chan_close [OF rng])
    show "max r (max g b) \<noteq> min r (min g b) \<Longrightarrow>
      b = min r (min g b) + (max r (max g b) - min r (min g b)) * trap (hsl_h r g b / 6 + - 1 / 3)"
      unfolding a3 by (rule hsl_exact(3))
  qed simp_all
  have "\<bar>\<lfloor>chan_back h s l (1 / 3) * 255 + 1 / 2\<rfloor> - R\<bar> \<le> 5"
    by (rule round_within) (use cr in \<open>simp add: r_def\<close>)
  moreover have "\<bar>\<lfloor>chan_back h s l 0 * 255 + 1 / 2\<rfloor> - G\<bar> \<le> 5"
    by (rule round_within) (use cg in \<open>simp add: g_def\<close>)
  moreover have "\<bar>\<lfloor>chan_back h s l (- 1 / 3) * 255 + 1 / 2\<rfloor> - B\<bar> \<le> 5"
    by (rule round_within) (use cb in \<open>simp add: b_def\<close>)
  ultimately have "\<bar>\<lfloor>chan_back h s l (1 / 3) * 255 + 1 / 2\<rfloor> - R\<bar> \<le> 5
    \<and> \<bar>\<lfloor>chan_back h s l 0 * 255 + 1 / 2\<rfloor> - G\<bar> \<le> 5
    \<and> \<bar>\<lfloor>chan_back h s l (- 1 / 3) * 255 + 1 / 2\<rfloor> - B\<bar> \<le> 5"
    by simp
  with bw show ?thesis
    unfolding c_def by blast
qed

theorem hsl_round_trip_witness:
  "(0 :: int) \<le> 2 \<and> (2 :: int) \<le> 255 \<and> (0 :: int) \<le> 228 \<and> (228 :: int) \<le> 255
   \<and> (0 :: int) \<le> 230 \<and> (230 :: int) \<le> 255
   \<and> (\<exists>R' G' B'.
         channels (rgb (hsl (Color_rgb (Fin (of_int 2)) (Fin (of_int 228)) (Fin (of_int 230))))) =
           [Fin (of_int R'), Fin (of_int G'), Fin (of_int B')]
         \<and> \<bar>R' - 2\<bar> \<le> 5 \<and> \<bar>G' - 228\<bar> \<le> 5 \<and> \<bar>B' - 230\<bar> \<le> 5)"
  using hsl_round_trip [of 2 228 230] by simp

end
